theory Spec2Isabelle
  imports Complex_Main
begin

section \<open>Python values, objects and exceptions\<close>

text \<open>
  The nodes of \<^verbatim>\<open>cognigraph/nodes/node.py\<close> are Python objects whose attributes are
  read and written by name (\<^verbatim>\<open>getattr\<close>, \<^verbatim>\<open>__setattr__\<close>), so an object is its
  instance dictionary, and the objects live in a store indexed by address: a successor
  holds a reference to its predecessor and writes the predecessor's
  \<^verbatim>\<open>there_has_been_a_change\<close>. The class of an object is fixed when it is created
  and is kept apart from the store.

  Values are the scalars the protocol itself handles, references to nodes, and
  dictionaries (the snapshot \<^verbatim>\<open>_saved_from_upstream\<close>). Python floats are read as
  reals. Only data attributes are modelled: methods and properties reached through
  \<^verbatim>\<open>getattr\<close>, and the built-in attributes of \<^verbatim>\<open>None\<close> and of numbers, are not.
\<close>

type_synonym addr = nat

datatype val =
    PyNone
  | PyBool bool
  | PyInt int
  | PyFloat real
  | PyStr string
  | PyRef addr
  | PyDict "(string \<times> val) list"

datatype error =
    AttributeError string
  | NotImplementedError
  | TypeError
  | RecursionError
  | SubclassError string

type_synonym heap = "addr \<Rightarrow> string \<rightharpoonup> val"

type_synonym 'r res = "(error + 'r) \<times> heap"

text \<open>Sequencing of two statements: an exception of the first skips the second, and
  the store keeps what was written before the exception.\<close>

definition then_do :: "'a res \<Rightarrow> ('a \<Rightarrow> heap \<Rightarrow> 'b res) \<Rightarrow> 'b res" where
  "then_do r f = (case r of (Inl e, h) \<Rightarrow> (Inl e, h) | (Inr x, h) \<Rightarrow> f x h)"

subsection \<open>Truth, equality and arithmetic of Python values\<close>

fun num_of :: "val \<Rightarrow> real option" where
  "num_of (PyBool b) = Some (if b then 1 else 0)"
| "num_of (PyInt i) = Some (of_int i)"
| "num_of (PyFloat r) = Some r"
| "num_of _ = None"

fun int_of :: "val \<Rightarrow> int option" where
  "int_of (PyBool b) = Some (if b then 1 else 0)"
| "int_of (PyInt i) = Some i"
| "int_of _ = None"

text \<open>\<^verbatim>\<open>==\<close>: numbers compare by value across \<^verbatim>\<open>bool\<close>, \<^verbatim>\<open>int\<close> and \<^verbatim>\<open>float\<close>,
  dictionaries by their items whatever the order, nodes by identity.\<close>

fun py_eq :: "val \<Rightarrow> val \<Rightarrow> bool" where
  "py_eq (PyDict xs) (PyDict ys) =
     (length xs = length ys \<and>
      (\<forall>p \<in> set xs. case map_of ys (fst p) of None \<Rightarrow> False | Some w \<Rightarrow> py_eq (snd p) w))"
| "py_eq x y =
     (case (num_of x, num_of y) of
        (Some a, Some b) \<Rightarrow> a = b
      | (None, None) \<Rightarrow> x = y
      | _ \<Rightarrow> False)"

fun truthy :: "val \<Rightarrow> bool" where
  "truthy PyNone = False"
| "truthy (PyBool b) = b"
| "truthy (PyInt i) = (i \<noteq> 0)"
| "truthy (PyFloat r) = (r \<noteq> 0)"
| "truthy (PyStr s) = (s \<noteq> [])"
| "truthy (PyRef a) = True"
| "truthy (PyDict kvs) = (kvs \<noteq> [])"

text \<open>\<^verbatim>\<open>x + y\<close>: numbers add (to a float as soon as one is a float), strings concatenate,
  everything else raises \<^verbatim>\<open>TypeError\<close>.\<close>

definition py_add :: "val \<Rightarrow> val \<Rightarrow> error + val" where
  "py_add x y =
     (case (int_of x, int_of y) of
        (Some i, Some j) \<Rightarrow> Inr (PyInt (i + j))
      | _ \<Rightarrow>
        (case (num_of x, num_of y) of
           (Some r, Some s) \<Rightarrow> Inr (PyFloat (r + s))
         | _ \<Rightarrow>
           (case (x, y) of
              (PyStr s, PyStr t) \<Rightarrow> Inr (PyStr (s @ t))
            | _ \<Rightarrow> Inl TypeError)))"

text \<open>\<^verbatim>\<open>t > x\<close> for a float \<^verbatim>\<open>t\<close>: defined against numbers only.\<close>

definition float_gt :: "real \<Rightarrow> val \<Rightarrow> error + bool" where
  "float_gt t x = (case num_of x of Some r \<Rightarrow> Inr (t > r) | None \<Rightarrow> Inl TypeError)"

text \<open>\<^verbatim>\<open>d[k] = v\<close> on a dictionary in insertion order.\<close>

fun dict_set :: "(string \<times> val) list \<Rightarrow> string \<Rightarrow> val \<Rightarrow> (string \<times> val) list" where
  "dict_set [] k v = [(k, v)]"
| "dict_set ((k', v') # kvs) k v =
     (if k' = k then (k, v) # kvs else (k', v') # dict_set kvs k v)"

section \<open>Classes\<close>

text \<open>
  What a class of nodes declares. \<open>None\<close> is an abstract member left as
  \<^verbatim>\<open>Node\<close> has it, which raises \<^verbatim>\<open>NotImplementedError\<close>. The validation
  \<^verbatim>\<open>_check_value\<close> is a check on the store that raises or returns; the routines
  \<^verbatim>\<open>_initialize\<close>, \<^verbatim>\<open>_update\<close> and \<^verbatim>\<open>reset\<close> of a subclass are any
  transformers of the store that may read the clock. A class derived from
  \<^verbatim>\<open>SourceNode\<close> inherits its members where it declares none.
\<close>

type_synonym hook = "real \<Rightarrow> addr \<Rightarrow> heap \<Rightarrow> unit res"

record cls =
  name :: string
  is_source :: bool
  reset_triggers :: "string list option"
  reinit_triggers :: "string list option"
  check_value :: "(heap \<Rightarrow> addr \<Rightarrow> string \<Rightarrow> val \<Rightarrow> error option) option"
  initialize_hook :: "hook option"
  update_hook :: "hook option"
  reset_hook :: "hook option"

text \<open>The class of every object.\<close>

type_synonym classes = "addr \<Rightarrow> cls"

text \<open>Modelled from the spec: \<^verbatim>\<open>class_name_of\<close> of \<^verbatim>\<open>helpers/misc.py\<close>, which is
  not among the sources; the error of the traversal names "the requesting node's type".\<close>

definition class_name_of :: "classes \<Rightarrow> addr \<Rightarrow> string" where
  "class_name_of K a = name (K a)"

definition CHANGES_IN_THESE_REQUIRE_RESET :: "classes \<Rightarrow> addr \<Rightarrow> error + string list" where
  "CHANGES_IN_THESE_REQUIRE_RESET K a =
     (case reset_triggers (K a) of
        None \<Rightarrow> Inl NotImplementedError
      | Some ts \<Rightarrow> Inr ts)"

definition UPSTREAM_CHANGES_IN_THESE_REQUIRE_REINITIALIZATION ::
    "classes \<Rightarrow> addr \<Rightarrow> error + string list" where
  "UPSTREAM_CHANGES_IN_THESE_REQUIRE_REINITIALIZATION K a =
     (case reinit_triggers (K a) of
        Some ts \<Rightarrow> Inr ts
      | None \<Rightarrow> if is_source (K a) then Inr [] else Inl NotImplementedError)"

definition Node_check_value :: "classes \<Rightarrow> heap \<Rightarrow> addr \<Rightarrow> string \<Rightarrow> val \<Rightarrow> error option" where
  "Node_check_value K h a key v =
     (case check_value (K a) of
        None \<Rightarrow> Some NotImplementedError
      | Some chk \<Rightarrow> chk h a key v)"

subsection \<open>Attribute access\<close>

definition type_name :: "classes \<Rightarrow> val \<Rightarrow> string" where
  "type_name K v =
     (case v of
        PyNone \<Rightarrow> ''NoneType''
      | PyBool b \<Rightarrow> ''bool''
      | PyInt i \<Rightarrow> ''int''
      | PyFloat r \<Rightarrow> ''float''
      | PyStr s \<Rightarrow> ''str''
      | PyRef a \<Rightarrow> name (K a)
      | PyDict kvs \<Rightarrow> ''dict'')"

definition no_attribute :: "string \<Rightarrow> string \<Rightarrow> string" where
  "no_attribute tname item =
     [CHR 0x27] @ tname @ [CHR 0x27] @ '' object has no attribute '' @
     [CHR 0x27] @ item @ [CHR 0x27]"

definition getattr_node :: "classes \<Rightarrow> heap \<Rightarrow> addr \<Rightarrow> string \<Rightarrow> error + val" where
  "getattr_node K h a item =
     (case h a item of
        Some v \<Rightarrow> Inr v
      | None \<Rightarrow> Inl (AttributeError (no_attribute (name (K a)) item)))"

definition getattr_val :: "classes \<Rightarrow> heap \<Rightarrow> val \<Rightarrow> string \<Rightarrow> error + val" where
  "getattr_val K h v item =
     (case v of
        PyRef b \<Rightarrow> getattr_node K h b item
      | _ \<Rightarrow> Inl (AttributeError (no_attribute (type_name K v) item)))"

definition store_attr :: "addr \<Rightarrow> string \<Rightarrow> val \<Rightarrow> heap \<Rightarrow> heap" where
  "store_attr a key v h = h(a := (h a)(key \<mapsto> v))"

section \<open>Node\<close>

text \<open>
  \<^verbatim>\<open>__setattr__\<close> intercepts every attribute write of a node, also the writes it
  makes itself, so it is recursive; the first argument after the classes bounds the
  depth of the nesting, and \<^verbatim>\<open>RecursionError\<close> is what Python raises beyond it.
\<close>

fun Node_setattr :: "classes \<Rightarrow> nat \<Rightarrow> addr \<Rightarrow> string \<Rightarrow> val \<Rightarrow> heap \<Rightarrow> unit res" where
  "Node_setattr K 0 a key v h = (Inl RecursionError, h)"
| "Node_setattr K (Suc d) a key v h =
     (case Node_check_value K h a key v of
        Some e \<Rightarrow> (Inl e, h)
      | None \<Rightarrow>
        (case CHANGES_IN_THESE_REQUIRE_RESET K a of
           Inl e \<Rightarrow> (Inl e, h)
         | Inr ts \<Rightarrow>
           if key \<in> set ts then
             then_do (Node_setattr K d a ''_should_reset'' (PyInt 1) h)
               (\<lambda>_ h1. then_do (Node_setattr K d a ''there_has_been_a_change'' (PyBool True) h1)
                  (\<lambda>_ h2. (Inr (), store_attr a key v h2)))
           else (Inr (), store_attr a key v h)))"

text \<open>An attribute write through a value: only a node can be written to.\<close>

definition setattr_val :: "classes \<Rightarrow> nat \<Rightarrow> val \<Rightarrow> string \<Rightarrow> val \<Rightarrow> heap \<Rightarrow> unit res" where
  "setattr_val K d target key v h =
     (case target of
        PyRef b \<Rightarrow> Node_setattr K d b key v h
      | _ \<Rightarrow> (Inl (AttributeError (no_attribute (type_name K target) key)), h))"

definition Node_init :: "classes \<Rightarrow> nat \<Rightarrow> addr \<Rightarrow> heap \<Rightarrow> unit res" where
  "Node_init K d a h =
     then_do (Node_setattr K d a ''input_node'' PyNone h)
       (\<lambda>_ h1. then_do (Node_setattr K d a ''output'' PyNone h1)
       (\<lambda>_ h2. then_do (Node_setattr K d a ''there_has_been_a_change'' (PyBool False) h2)
       (\<lambda>_ h3. then_do (Node_setattr K d a ''_should_initialize'' (PyBool True) h3)
       (\<lambda>_ h4. then_do (Node_setattr K d a ''_should_reset'' (PyBool False) h4)
       (\<lambda>_ h5. Node_setattr K d a ''_saved_from_upstream'' PyNone h5)))))"

subsection \<open>Ancestor traversal\<close>

definition missing_upstream :: "string \<Rightarrow> string \<Rightarrow> string" where
  "missing_upstream tname item =
     ''None of the predecessors of a '' @ tname @ '' node contains attribute '' @ item"

text \<open>Each \<^verbatim>\<open>except AttributeError\<close> catches that exception only. The recursion
  follows \<^verbatim>\<open>input_node\<close>, which a store can close into a cycle, hence the bound.\<close>

fun traverse_back_and_find :: "classes \<Rightarrow> nat \<Rightarrow> heap \<Rightarrow> addr \<Rightarrow> string \<Rightarrow> error + val" where
  "traverse_back_and_find K 0 h a item = Inl RecursionError"
| "traverse_back_and_find K (Suc d) h a item =
     (case (case getattr_node K h a ''input_node'' of
              Inl e \<Rightarrow> Inl e
            | Inr inp \<Rightarrow> getattr_val K h inp item) of
        Inr v \<Rightarrow> Inr v
      | Inl (AttributeError m) \<Rightarrow>
          (case (case getattr_node K h a ''input_node'' of
                   Inl e \<Rightarrow> Inl e
                 | Inr (PyRef b) \<Rightarrow> traverse_back_and_find K d h b item
                 | Inr inp \<Rightarrow>
                     Inl (AttributeError
                           (no_attribute (type_name K inp) ''traverse_back_and_find''))) of
             Inr v \<Rightarrow> Inr v
           | Inl (AttributeError m') \<Rightarrow>
               Inl (AttributeError (missing_upstream (class_name_of K a) item))
           | Inl e \<Rightarrow> Inl e)
      | Inl e \<Rightarrow> Inl e)"

subsection \<open>The pull\<close>

definition there_was_a_change_upstream :: "classes \<Rightarrow> heap \<Rightarrow> addr \<Rightarrow> error + bool" where
  "there_was_a_change_upstream K h a =
     (case getattr_node K h a ''input_node'' of
        Inl e \<Rightarrow> Inl e
      | Inr inp \<Rightarrow>
          if inp \<noteq> PyNone then
            (case getattr_val K h inp ''there_has_been_a_change'' of
               Inl e \<Rightarrow> Inl e
             | Inr f \<Rightarrow> Inr (f = PyBool True))
          else Inr False)"

text \<open>The loop of \<^verbatim>\<open>_the_change_requires_reinitialization\<close> over the items of the
  snapshot: it returns at the first item that differs.\<close>

fun items_differ :: "classes \<Rightarrow> nat \<Rightarrow> heap \<Rightarrow> addr \<Rightarrow> (string \<times> val) list \<Rightarrow> error + bool" where
  "items_differ K d h a [] = Inr False"
| "items_differ K d h a ((item, v) # rest) =
     (case traverse_back_and_find K d h a item of
        Inl e \<Rightarrow> Inl e
      | Inr t \<Rightarrow> if \<not> py_eq v t then Inr True else items_differ K d h a rest)"

definition the_change_requires_reinitialization :: "classes \<Rightarrow> nat \<Rightarrow> heap \<Rightarrow> addr \<Rightarrow> error + bool" where
  "the_change_requires_reinitialization K d h a =
     (case getattr_node K h a ''_saved_from_upstream'' of
        Inl e \<Rightarrow> Inl e
      | Inr (PyDict kvs) \<Rightarrow> items_differ K d h a kvs
      | Inr v \<Rightarrow> Inl (AttributeError (no_attribute (type_name K v) ''items'')))"

definition react_to_the_change_upstream :: "classes \<Rightarrow> nat \<Rightarrow> addr \<Rightarrow> heap \<Rightarrow> unit res" where
  "react_to_the_change_upstream K d a h =
     (case the_change_requires_reinitialization K d h a of
        Inl e \<Rightarrow> (Inl e, h)
      | Inr req \<Rightarrow>
          then_do
            (if req then Node_setattr K d a ''_should_initialize'' (PyBool True) h
             else Node_setattr K d a ''_should_reset'' (PyBool True) h)
            (\<lambda>_ h1.
               case getattr_node K h1 a ''input_node'' of
                 Inl e \<Rightarrow> (Inl e, h1)
               | Inr inp \<Rightarrow>
                   then_do (setattr_val K d inp ''there_has_been_a_change'' (PyBool False) h1)
                     (\<lambda>_ h2. Node_setattr K d a ''there_has_been_a_change'' (PyBool True) h2)))"

text \<open>The dictionary comprehension of \<^verbatim>\<open>initialize\<close>.\<close>

fun collect_upstream ::
    "classes \<Rightarrow> nat \<Rightarrow> heap \<Rightarrow> addr \<Rightarrow> string list \<Rightarrow> (string \<times> val) list \<Rightarrow> error + (string \<times> val) list" where
  "collect_upstream K d h a [] acc = Inr acc"
| "collect_upstream K d h a (item # rest) acc =
     (case traverse_back_and_find K d h a item of
        Inl e \<Rightarrow> Inl e
      | Inr v \<Rightarrow> collect_upstream K d h a rest (dict_set acc item v))"

text \<open>\<^verbatim>\<open>SourceNode._initialize\<close> and \<^verbatim>\<open>SourceNode._update\<close>; the latter only calls
  \<^verbatim>\<open>Node._update\<close>, which raises.\<close>

definition SourceNode_initialize_impl :: "classes \<Rightarrow> nat \<Rightarrow> real \<Rightarrow> addr \<Rightarrow> heap \<Rightarrow> unit res" where
  "SourceNode_initialize_impl K d now a h =
     (case getattr_node K h a ''_should_self_destruct'' of
        Inl e \<Rightarrow> (Inl e, h)
      | Inr sd \<Rightarrow>
          if truthy sd then Node_setattr K d a ''_birthtime'' (PyFloat now) h
          else (Inr (), h))"

definition SourceNode_update_impl :: "real \<Rightarrow> addr \<Rightarrow> heap \<Rightarrow> unit res" where
  "SourceNode_update_impl now a h = (Inl NotImplementedError, h)"

text \<open>Method resolution of \<^verbatim>\<open>self._initialize()\<close>, \<^verbatim>\<open>self._update()\<close> and
  \<^verbatim>\<open>self.reset()\<close>.\<close>

definition Node_initialize_impl :: "classes \<Rightarrow> nat \<Rightarrow> real \<Rightarrow> addr \<Rightarrow> heap \<Rightarrow> unit res" where
  "Node_initialize_impl K d now a h =
     (case initialize_hook (K a) of
        Some f \<Rightarrow> f now a h
      | None \<Rightarrow>
          if is_source (K a) then SourceNode_initialize_impl K d now a h
          else (Inl NotImplementedError, h))"

definition Node_update_impl :: "classes \<Rightarrow> real \<Rightarrow> addr \<Rightarrow> heap \<Rightarrow> unit res" where
  "Node_update_impl K now a h =
     (case update_hook (K a) of
        Some f \<Rightarrow> f now a h
      | None \<Rightarrow>
          if is_source (K a) then SourceNode_update_impl now a h
          else (Inl NotImplementedError, h))"

definition reset :: "classes \<Rightarrow> real \<Rightarrow> addr \<Rightarrow> heap \<Rightarrow> unit res" where
  "reset K now a h =
     (case reset_hook (K a) of
        Some f \<Rightarrow> f now a h
      | None \<Rightarrow> (Inl NotImplementedError, h))"

definition initialize :: "classes \<Rightarrow> nat \<Rightarrow> real \<Rightarrow> addr \<Rightarrow> heap \<Rightarrow> unit res" where
  "initialize K d now a h =
     (case UPSTREAM_CHANGES_IN_THESE_REQUIRE_REINITIALIZATION K a of
        Inl e \<Rightarrow> (Inl e, h)
      | Inr ts \<Rightarrow>
          (case collect_upstream K d h a ts [] of
             Inl e \<Rightarrow> (Inl e, h)
           | Inr kvs \<Rightarrow>
               then_do (Node_setattr K d a ''_saved_from_upstream'' (PyDict kvs) h)
                 (\<lambda>_ h1. Node_initialize_impl K d now a h1)))"

definition reset_or_reinitialize_if_needed ::
    "classes \<Rightarrow> nat \<Rightarrow> real \<Rightarrow> addr \<Rightarrow> heap \<Rightarrow> unit res" where
  "reset_or_reinitialize_if_needed K d now a h =
     (case getattr_node K h a ''_should_initialize'' of
        Inl e \<Rightarrow> (Inl e, h)
      | Inr si \<Rightarrow>
          then_do
            (if si = PyBool True then initialize K d now a h
             else
               (case getattr_node K h a ''_should_reset'' of
                  Inl e \<Rightarrow> (Inl e, h)
                | Inr sr \<Rightarrow> if sr = PyBool True then reset K now a h else (Inr (), h)))
            (\<lambda>_ h1. then_do (Node_setattr K d a ''_should_initialize'' (PyBool False) h1)
               (\<lambda>_ h2. Node_setattr K d a ''_should_reset'' (PyBool False) h2)))"

definition update :: "classes \<Rightarrow> nat \<Rightarrow> real \<Rightarrow> addr \<Rightarrow> heap \<Rightarrow> unit res" where
  "update K d now a h =
     then_do (Node_setattr K d a ''output'' PyNone h)
       (\<lambda>_ h1.
          case there_was_a_change_upstream K h1 a of
            Inl e \<Rightarrow> (Inl e, h1)
          | Inr changed \<Rightarrow>
              then_do (if changed then react_to_the_change_upstream K d a h1 else (Inr (), h1))
                (\<lambda>_ h2. then_do (reset_or_reinitialize_if_needed K d now a h2)
                   (\<lambda>_ h3. Node_update_impl K now a h3)))"

section \<open>SourceNode\<close>

definition SourceNode_init :: "classes \<Rightarrow> nat \<Rightarrow> val \<Rightarrow> addr \<Rightarrow> heap \<Rightarrow> unit res" where
  "SourceNode_init K d seconds_to_live a h =
     then_do (Node_init K d a h)
       (\<lambda>_ h1. then_do (Node_setattr K d a ''frequency'' PyNone h1)
       (\<lambda>_ h2. then_do (Node_setattr K d a ''dtype'' PyNone h2)
       (\<lambda>_ h3. then_do (Node_setattr K d a ''channel_count'' PyNone h3)
       (\<lambda>_ h4. then_do (Node_setattr K d a ''channel_labels'' PyNone h4)
       (\<lambda>_ h5. then_do (Node_setattr K d a ''source_name'' PyNone h5)
       (\<lambda>_ h6. then_do
          (Node_setattr K d a ''_should_self_destruct'' (PyBool (seconds_to_live \<noteq> PyNone)) h6)
       (\<lambda>_ h7.
          case getattr_node K h7 a ''_should_self_destruct'' of
            Inl e \<Rightarrow> (Inl e, h7)
          | Inr sd \<Rightarrow>
              if truthy sd then
                then_do (Node_setattr K d a ''_birthtime'' PyNone h7)
                  (\<lambda>_ h8. then_do (Node_setattr K d a ''_seconds_to_live'' seconds_to_live h8)
                  (\<lambda>_ h9. Node_setattr K d a ''_is_alive'' (PyBool True) h9))
              else (Inr (), h7))))))))"

text \<open>The property \<^verbatim>\<open>is_alive\<close>, read when the clock shows \<open>now\<close>.\<close>

definition is_alive :: "classes \<Rightarrow> nat \<Rightarrow> real \<Rightarrow> addr \<Rightarrow> heap \<Rightarrow> val res" where
  "is_alive K d now a h =
     (case getattr_node K h a ''_should_self_destruct'' of
        Inl e \<Rightarrow> (Inl e, h)
      | Inr sd \<Rightarrow>
          then_do
            (if truthy sd then
               (case getattr_node K h a ''_birthtime'' of
                  Inl e \<Rightarrow> (Inl e, h)
                | Inr b \<Rightarrow>
                    (case getattr_node K h a ''_seconds_to_live'' of
                       Inl e \<Rightarrow> (Inl e, h)
                     | Inr l \<Rightarrow>
                         (case py_add b l of
                            Inl e \<Rightarrow> (Inl e, h)
                          | Inr s \<Rightarrow>
                              (case float_gt now s of
                                 Inl e \<Rightarrow> (Inl e, h)
                               | Inr expired \<Rightarrow>
                                   if expired
                                   then Node_setattr K d a ''_is_alive'' (PyBool False) h
                                   else (Inr (), h)))))
             else (Inr (), h))
            (\<lambda>_ h1.
               case getattr_node K h1 a ''_is_alive'' of
                 Inl e \<Rightarrow> (Inl e, h1)
               | Inr v \<Rightarrow> (Inr v, h1)))"

text \<open>Object creation: a fresh object at address \<open>a\<close>, before \<^verbatim>\<open>__init__\<close>
  runs.\<close>

definition new_object :: "addr \<Rightarrow> heap \<Rightarrow> heap" where
  "new_object a h = h(a := Map.empty)"


section \<open>Conditions on the classes\<close>

text \<open>The attributes the protocol itself writes during a pull.\<close>

definition protocol_attrs :: "string set" where
  "protocol_attrs =
     {''output'', ''there_has_been_a_change'', ''_should_initialize'', ''_should_reset'',
      ''_saved_from_upstream''}"

text \<open>
  The class of the object \<open>a\<close> takes part in the protocol: it declares its validation
  and its reset triggers, the validation lets the protocol write its own attributes, and
  the triggers name none of them (with \<^verbatim>\<open>_should_reset\<close> among the triggers,
  \<^verbatim>\<open>__setattr__\<close> would call itself without end).
\<close>

definition cooperative :: "classes \<Rightarrow> addr \<Rightarrow> bool" where
  "cooperative K a \<longleftrightarrow>
     (\<exists>chk ts. check_value (K a) = Some chk \<and> reset_triggers (K a) = Some ts \<and>
        (\<forall>h k v. k \<in> protocol_attrs \<longrightarrow> chk h a k v = None) \<and>
        set ts \<inter> protocol_attrs = {})"

text \<open>A routine that, run on the object \<open>b\<close>, never changes the attribute \<open>key\<close> of the
  object \<open>x\<close>.\<close>

definition leaves :: "hook \<Rightarrow> addr \<Rightarrow> addr \<Rightarrow> string \<Rightarrow> bool" where
  "leaves f b x key \<longleftrightarrow> (\<forall>now h. snd (f now b h) x key = h x key)"



text \<open>The class of \<open>a\<close> with another routine \<^verbatim>\<open>reset\<close>.\<close>

definition with_reset :: "hook option \<Rightarrow> addr \<Rightarrow> classes \<Rightarrow> classes" where
  "with_reset r a K = K(a := (K a)\<lparr>reset_hook := r\<rparr>)"

section \<open>A concrete pipeline\<close>

text \<open>
  Concrete classes, used to run the definitions: a source whose validation wants a
  positive \<^verbatim>\<open>frequency\<close>, a source that keeps the compute step of \<^verbatim>\<open>SourceNode\<close>,
  a processor that depends on the \<^verbatim>\<open>frequency\<close> upstream and has a \<^verbatim>\<open>gain\<close> of its
  own, and a class that declares nothing. Their routines count their runs in an
  attribute of the node.
\<close>

definition count_run :: "string \<Rightarrow> hook" where
  "count_run key now a h =
     (Inr (),
      store_attr a key (PyInt (case h a key of Some (PyInt n) \<Rightarrow> n + 1 | _ \<Rightarrow> 1)) h)"

definition produce :: hook where
  "produce now a h = (Inr (), store_attr a ''output'' (PyFloat now) h)"

definition positive_frequency :: "heap \<Rightarrow> addr \<Rightarrow> string \<Rightarrow> val \<Rightarrow> error option" where
  "positive_frequency h a key v =
     (if key = ''frequency'' \<and> v \<noteq> PyNone \<and> (case num_of v of Some r \<Rightarrow> r \<le> 0 | None \<Rightarrow> True)
      then Some (SubclassError ''frequency must be positive'')
      else None)"

definition Source_cls :: cls where
  "Source_cls =
     \<lparr>name = ''Source'', is_source = True, reset_triggers = Some [''frequency''],
      reinit_triggers = None, check_value = Some positive_frequency,
      initialize_hook = None, update_hook = Some produce,
      reset_hook = Some (count_run ''resets'')\<rparr>"

definition PlainSource_cls :: cls where
  "PlainSource_cls =
     \<lparr>name = ''PlainSource'', is_source = True, reset_triggers = Some [''frequency''],
      reinit_triggers = None, check_value = Some positive_frequency,
      initialize_hook = None, update_hook = None, reset_hook = None\<rparr>"

definition Processor_cls :: cls where
  "Processor_cls =
     \<lparr>name = ''Processor'', is_source = False, reset_triggers = Some [''gain''],
      reinit_triggers = Some [''frequency''],
      check_value = Some (\<lambda>h a key v. None),
      initialize_hook = Some (count_run ''initializations''),
      update_hook = Some produce, reset_hook = Some (count_run ''resets'')\<rparr>"

definition Abstract_cls :: cls where
  "Abstract_cls =
     \<lparr>name = ''Node'', is_source = False, reset_triggers = None, reinit_triggers = None,
      check_value = None, initialize_hook = None, update_hook = None, reset_hook = None\<rparr>"

text \<open>Object 0 is a source, object 1 a processor, object 2 a processor too, object 3 a
  source with the inherited compute step.\<close>

definition pipeline :: classes where
  "pipeline =
     (\<lambda>a. Abstract_cls)(0 := Source_cls, 1 := Processor_cls, 2 := Processor_cls,
                         3 := PlainSource_cls)"

definition no_objects :: heap where
  "no_objects = (\<lambda>a. Map.empty)"

text \<open>The source and the first processor, which reads from it, both initialized and at
  rest: no flag is raised.\<close>

definition source_at_rest :: "string \<rightharpoonup> val" where
  "source_at_rest =
     map_of
       [(''input_node'', PyNone), (''output'', PyNone),
        (''there_has_been_a_change'', PyBool False),
        (''_should_initialize'', PyBool False), (''_should_reset'', PyBool False),
        (''_saved_from_upstream'', PyDict []), (''frequency'', PyInt 256)]"

definition processor_at_rest :: "string \<rightharpoonup> val" where
  "processor_at_rest =
     map_of
       [(''input_node'', PyRef 0), (''output'', PyNone),
        (''there_has_been_a_change'', PyBool False),
        (''_should_initialize'', PyBool False), (''_should_reset'', PyBool False),
        (''_saved_from_upstream'', PyDict [(''frequency'', PyInt 256)]),
        (''gain'', PyInt 1)]"

definition chain_at_rest :: heap where
  "chain_at_rest = no_objects(0 := source_at_rest, 1 := processor_at_rest)"

text \<open>The processor with both flags raised.\<close>

definition processor_both_pending :: "string \<rightharpoonup> val" where
  "processor_both_pending =
     processor_at_rest(''_should_initialize'' \<mapsto> PyBool True, ''_should_reset'' \<mapsto> PyBool True)"

definition chain_both_pending :: heap where
  "chain_both_pending = no_objects(0 := source_at_rest, 1 := processor_both_pending)"

text \<open>A second processor, object 2, behind the first.\<close>

definition second_processor :: "string \<rightharpoonup> val" where
  "second_processor = processor_at_rest(''input_node'' \<mapsto> PyRef 1)"

definition chain_of_three :: heap where
  "chain_of_three =
     no_objects(0 := source_at_rest, 1 := processor_at_rest, 2 := second_processor)"

text \<open>The chain after \<^verbatim>\<open>source.frequency = 512\<close>.\<close>

definition source_changed :: "string \<rightharpoonup> val" where
  "source_changed =
     source_at_rest(''_should_reset'' \<mapsto> PyInt 1,
                    ''there_has_been_a_change'' \<mapsto> PyBool True,
                    ''frequency'' \<mapsto> PyInt 512)"

definition chain_source_changed :: heap where
  "chain_source_changed = no_objects(0 := source_changed, 1 := processor_at_rest)"

text \<open>Object 3, a source with the inherited compute step: it was given two seconds to
  live, was initialized when the clock showed 0 and has been seen expired since. Its
  \<^verbatim>\<open>output\<close> holds a value all the same.\<close>

definition plain_source :: "string \<rightharpoonup> val" where
  "plain_source =
     map_of
       [(''input_node'', PyNone), (''output'', PyFloat 7),
        (''there_has_been_a_change'', PyBool False),
        (''_should_initialize'', PyBool False), (''_should_reset'', PyBool False),
        (''_saved_from_upstream'', PyDict []), (''frequency'', PyInt 256),
        (''_should_self_destruct'', PyBool True), (''_birthtime'', PyFloat 0),
        (''_seconds_to_live'', PyInt 2), (''_is_alive'', PyBool False)]"

definition lone_source :: heap where
  "lone_source = no_objects(3 := plain_source)"

text \<open>The life of a source that produces data, object 0: constructed with two seconds
  to live, pulled when the clock shows 0, asked whether it is alive when the clock
  shows 5.\<close>

definition timed_source_built :: heap where
  "timed_source_built = snd (SourceNode_init pipeline 3 (PyInt 2) 0 (new_object 0 no_objects))"

definition timed_source_pulled :: heap where
  "timed_source_pulled = snd (update pipeline 3 0 0 timed_source_built)"

definition timed_source_expired :: heap where
  "timed_source_expired = snd (is_alive pipeline 3 5 0 timed_source_pulled)"

text \<open>Another life of it: initialized when the clock shows 0, asked when it shows 3,
  initialized again when it shows 10.\<close>

definition timed_source_initialized :: heap where
  "timed_source_initialized = snd (initialize pipeline 3 0 0 timed_source_built)"

definition timed_source_seen_dead :: heap where
  "timed_source_seen_dead = snd (is_alive pipeline 3 3 0 timed_source_initialized)"

definition timed_source_reinitialized :: heap where
  "timed_source_reinitialized = snd (initialize pipeline 3 10 0 timed_source_seen_dead)"

section \<open>Attribute mutation\<close>

lemma then_do_simps [simp]:
  "then_do (Inl e, h) f = (Inl e, h)"
  "then_do (Inr x, h) f = f x h"
  by (simp_all add: then_do_def)

text \<open>
  C6. When the validation \<^verbatim>\<open>_check_value\<close> rejects the mutation of an attribute
  (it raises), \<^verbatim>\<open>__setattr__\<close> ends with that exception, reported to the caller, and
  the store is what it was: the attribute keeps its value, and neither
  \<^verbatim>\<open>_should_reset\<close> nor \<^verbatim>\<open>there_has_been_a_change\<close> is written.
\<close>

theorem setattr_rejected_changes_nothing:
  "Node_check_value K h a key v = Some e \<Longrightarrow> Node_setattr K (Suc d) a key v h = (Inl e, h)"
  by simp

theorem setattr_rejected_changes_nothing_witness:
  "Node_check_value pipeline chain_at_rest 0 ''frequency'' (PyInt (- 5))
     = Some (SubclassError ''frequency must be positive'')
   \<and> Node_setattr pipeline 3 0 ''frequency'' (PyInt (- 5)) chain_at_rest
     = (Inl (SubclassError ''frequency must be positive''), chain_at_rest)"
proof -
  have rejected:
    "Node_check_value pipeline chain_at_rest 0 ''frequency'' (PyInt (- 5))
       = Some (SubclassError ''frequency must be positive'')"
    by (simp add: Node_check_value_def pipeline_def Source_cls_def positive_frequency_def)
  from setattr_rejected_changes_nothing [OF rejected, of 2] rejected
  show ?thesis by (simp add: numeral_3_eq_3)
qed

subsection \<open>Unfolding and basic facts\<close>

lemmas class_defs =
  pipeline_def Source_cls_def PlainSource_cls_def Processor_cls_def Abstract_cls_def
  positive_frequency_def count_run_def produce_def

lemmas heap_defs =
  chain_at_rest_def source_at_rest_def processor_at_rest_def no_objects_def store_attr_def
  chain_both_pending_def processor_both_pending_def chain_of_three_def second_processor_def
  chain_source_changed_def source_changed_def lone_source_def plain_source_def

lemmas step_defs =
  Node_setattr.simps(2) Node_check_value_def CHANGES_IN_THESE_REQUIRE_RESET_def
  UPSTREAM_CHANGES_IN_THESE_REQUIRE_REINITIALIZATION_def getattr_node_def getattr_val_def
  setattr_val_def there_was_a_change_upstream_def the_change_requires_reinitialization_def
  react_to_the_change_upstream_def initialize_def Node_initialize_impl_def
  Node_update_impl_def SourceNode_initialize_impl_def SourceNode_update_impl_def reset_def
  reset_or_reinitialize_if_needed_def update_def class_name_of_def type_name_def

lemma store_attr_simps [simp]:
  "store_attr a k v h a k = Some v"
  "k' \<noteq> k \<Longrightarrow> store_attr a k v h x k' = h x k'"
  "x \<noteq> a \<Longrightarrow> store_attr a k v h x = h x"
  by (simp_all add: store_attr_def)

lemma getattr_node_simps [simp]:
  "h a k = Some v \<Longrightarrow> getattr_node K h a k = Inr v"
  "h a k = None \<Longrightarrow> getattr_node K h a k = Inl (AttributeError (no_attribute (name (K a)) k))"
  by (simp_all add: getattr_node_def)

lemma protocol_attrs_simps [simp]:
  "''output'' \<in> protocol_attrs" "''there_has_been_a_change'' \<in> protocol_attrs"
  "''_should_initialize'' \<in> protocol_attrs" "''_should_reset'' \<in> protocol_attrs"
  "''_saved_from_upstream'' \<in> protocol_attrs"
  by (simp_all add: protocol_attrs_def)

lemma cooperative_check:
  "cooperative K a \<Longrightarrow> k \<in> protocol_attrs \<Longrightarrow> Node_check_value K h a k v = None"
  by (auto simp: cooperative_def Node_check_value_def)

lemma setattr_protocol:
  "cooperative K a \<Longrightarrow> k \<in> protocol_attrs \<Longrightarrow>
   Node_setattr K (Suc d) a k v h = (Inr (), store_attr a k v h)"
  by (auto simp: cooperative_check cooperative_def CHANGES_IN_THESE_REQUIRE_RESET_def)

declare Node_setattr.simps(2) [simp del]

lemma setattr_protocol_any_depth:
  assumes "cooperative K a" "k \<in> protocol_attrs"
  shows "Node_setattr K d a k v h =
           (if d = 0 then (Inl RecursionError, h) else (Inr (), store_attr a k v h))"
  using assms by (cases d) (simp_all add: setattr_protocol)

text \<open>What a write leaves alone, whether it succeeds or not.\<close>

lemma setattr_frame:
  assumes "cooperative K a" "k' \<noteq> key" "k' \<noteq> ''_should_reset''"
    "k' \<noteq> ''there_has_been_a_change''"
  shows "snd (Node_setattr K d a key v h) x k' = h x k'"
proof (cases d)
  case 0
  then show ?thesis by simp
next
  case (Suc d')
  show ?thesis
    using assms unfolding Suc
    by (auto simp: Node_setattr.simps(2) setattr_protocol_any_depth
          CHANGES_IN_THESE_REQUIRE_RESET_def split: option.splits sum.splits)
qed

lemma setattr_other_object:
  assumes "cooperative K a" "x \<noteq> a"
  shows "snd (Node_setattr K d a key v h) x = h x"
proof (cases d)
  case 0
  then show ?thesis by simp
next
  case (Suc d')
  show ?thesis
    using assms unfolding Suc
    by (auto simp: Node_setattr.simps(2) setattr_protocol_any_depth
          CHANGES_IN_THESE_REQUIRE_RESET_def split: option.splits sum.splits)
qed

text \<open>A write that the validation accepts: the attribute is stored, after the two
  flags when its name is a reset trigger.\<close>

lemma setattr_ok:
  assumes "cooperative K a" "Node_check_value K h a key v = None"
    "reset_triggers (K a) = Some ts"
  shows "Node_setattr K (Suc (Suc d)) a key v h =
           (Inr (), store_attr a key v
              (if key \<in> set ts
               then store_attr a ''there_has_been_a_change'' (PyBool True)
                      (store_attr a ''_should_reset'' (PyInt 1) h)
               else h))"
  using assms
  by (auto simp: Node_setattr.simps(2) [of _ "Suc d"] setattr_protocol
        CHANGES_IN_THESE_REQUIRE_RESET_def cooperative_def)

lemma pipeline_cooperative: "cooperative pipeline 0" "cooperative pipeline 1"
  by (auto simp: cooperative_def class_defs protocol_attrs_def)

subsection \<open>The routine \<^verbatim>\<open>reset\<close> of a class is no part of anything but the call of it\<close>

lemma with_reset_fields [simp]:
  "name (with_reset r a K x) = name (K x)"
  "is_source (with_reset r a K x) = is_source (K x)"
  "reset_triggers (with_reset r a K x) = reset_triggers (K x)"
  "reinit_triggers (with_reset r a K x) = reinit_triggers (K x)"
  "check_value (with_reset r a K x) = check_value (K x)"
  "initialize_hook (with_reset r a K x) = initialize_hook (K x)"
  "update_hook (with_reset r a K x) = update_hook (K x)"
  by (simp_all add: with_reset_def)

lemma with_reset_own: "with_reset (reset_hook (K a)) a K = K"
  by (simp add: with_reset_def)

lemma with_reset_cooperative [simp]: "cooperative (with_reset r a K) x = cooperative K x"
  by (simp add: cooperative_def)

lemma with_reset_setattr [simp]:
  "Node_setattr (with_reset r a K) d x k v h = Node_setattr K d x k v h"
  by (induction d arbitrary: x k v h)
     (simp_all add: Node_setattr.simps(2) Node_check_value_def
        CHANGES_IN_THESE_REQUIRE_RESET_def split: option.splits sum.splits)

lemma with_reset_getattr [simp]:
  "getattr_node (with_reset r a K) h x k = getattr_node K h x k"
  "type_name (with_reset r a K) v = type_name K v"
  "getattr_val (with_reset r a K) h v k = getattr_val K h v k"
  by (simp_all add: getattr_node_def getattr_val_def type_name_def
        split: val.splits option.splits)

lemma with_reset_traverse [simp]:
  "traverse_back_and_find (with_reset r a K) d h x item = traverse_back_and_find K d h x item"
  by (induction d arbitrary: x)
     (simp_all add: class_name_of_def split: sum.splits error.splits val.splits)

lemma with_reset_collect [simp]:
  "collect_upstream (with_reset r a K) d h x ts acc = collect_upstream K d h x ts acc"
  by (induction ts arbitrary: acc) (simp_all split: sum.splits)

lemma with_reset_initialize [simp]:
  "initialize (with_reset r a K) d now x h = initialize K d now x h"
  by (simp add: initialize_def UPSTREAM_CHANGES_IN_THESE_REQUIRE_REINITIALIZATION_def
      Node_initialize_impl_def SourceNode_initialize_impl_def then_do_def
      split: sum.splits option.splits prod.splits)

section \<open>Resolving the pending flags\<close>

text \<open>
  C3. When \<^verbatim>\<open>_should_initialize\<close> and \<^verbatim>\<open>_should_reset\<close> are both true as the pull
  resolves them, and \<^verbatim>\<open>initialize()\<close> returns, the step is \<^verbatim>\<open>initialize()\<close>
  followed by the clearing of the two flags, and nothing else: the outcome is the same
  whatever routine \<open>r\<close> the class has as \<^verbatim>\<open>reset()\<close> (its own, for which
  \<open>with_reset r a K\<close> is \<open>K\<close>, or none at all), so \<^verbatim>\<open>reset()\<close> is not run, and
  both flags are false afterwards.
\<close>

theorem initialize_supersedes_reset:
  assumes "h a ''_should_initialize'' = Some (PyBool True)"
      and "h a ''_should_reset'' = Some (PyBool True)"
      and "cooperative K a"
      and "initialize K (Suc d) now a h = (Inr (), h1)"
  shows "reset_or_reinitialize_if_needed (with_reset r a K) (Suc d) now a h =
           (Inr (), store_attr a ''_should_reset'' (PyBool False)
                      (store_attr a ''_should_initialize'' (PyBool False) h1))"
  using assms
  by (simp add: reset_or_reinitialize_if_needed_def setattr_protocol)

theorem initialize_supersedes_reset_witness:
  "chain_both_pending 1 ''_should_initialize'' = Some (PyBool True) \<and>
   chain_both_pending 1 ''_should_reset'' = Some (PyBool True) \<and>
   fst (initialize pipeline 3 0 1 chain_both_pending) = Inr () \<and>
   reset_or_reinitialize_if_needed (with_reset None 1 pipeline) 3 0 1 chain_both_pending =
     (Inr (), store_attr 1 ''_should_reset'' (PyBool False)
                (store_attr 1 ''_should_initialize'' (PyBool False)
                   (snd (initialize pipeline 3 0 1 chain_both_pending))))"
proof -
  have a: "chain_both_pending 1 ''_should_initialize'' = Some (PyBool True)"
    by (simp add: heap_defs)
  have b: "chain_both_pending 1 ''_should_reset'' = Some (PyBool True)"
    by (simp add: heap_defs)
  have c: "fst (initialize pipeline (Suc 2) 0 1 chain_both_pending) = Inr ()"
    by (simp add: step_defs class_defs heap_defs numeral_2_eq_2)
  then have d: "initialize pipeline (Suc 2) 0 1 chain_both_pending =
      (Inr (), snd (initialize pipeline (Suc 2) 0 1 chain_both_pending))"
    by (metis prod.collapse)
  from initialize_supersedes_reset [OF a b pipeline_cooperative(2) d, of None] a b c
  show ?thesis by (simp add: numeral_3_eq_3 numeral_2_eq_2)
qed

text \<open>
  C1. The attribute \<^verbatim>\<open>gain\<close> is a reset trigger of the processor. On the chain at
  rest, the mutation \<^verbatim>\<open>processor.gain = 5\<close> is accepted and \<^verbatim>\<open>__setattr__\<close> stores
  the integer \<^verbatim>\<open>1\<close> in \<^verbatim>\<open>_should_reset\<close>; no reinitialization is pending and
  nothing changed upstream. The next pull tests \<^verbatim>\<open>self._should_reset is True\<close>,
  which the integer \<^verbatim>\<open>1\<close> is not: the pull completes and clears the flag without
  having run \<^verbatim>\<open>reset()\<close> (nor \<^verbatim>\<open>initialize()\<close>), whose runs the class counts.
\<close>

theorem local_mutation_never_runs_reset:
  "fst (Node_setattr pipeline 3 1 ''gain'' (PyInt 5) chain_at_rest) = Inr () \<and>
   snd (Node_setattr pipeline 3 1 ''gain'' (PyInt 5) chain_at_rest) 1 ''gain''
     = Some (PyInt 5) \<and>
   snd (Node_setattr pipeline 3 1 ''gain'' (PyInt 5) chain_at_rest) 1 ''_should_reset''
     = Some (PyInt 1) \<and>
   snd (Node_setattr pipeline 3 1 ''gain'' (PyInt 5) chain_at_rest) 1 ''_should_initialize''
     = Some (PyBool False) \<and>
   there_was_a_change_upstream pipeline
     (snd (Node_setattr pipeline 3 1 ''gain'' (PyInt 5) chain_at_rest)) 1 = Inr False \<and>
   fst (update pipeline 3 0 1
         (snd (Node_setattr pipeline 3 1 ''gain'' (PyInt 5) chain_at_rest))) = Inr () \<and>
   snd (update pipeline 3 0 1
         (snd (Node_setattr pipeline 3 1 ''gain'' (PyInt 5) chain_at_rest))) 1 ''resets''
     = None \<and>
   snd (update pipeline 3 0 1
         (snd (Node_setattr pipeline 3 1 ''gain'' (PyInt 5) chain_at_rest))) 1
       ''initializations'' = None \<and>
   snd (update pipeline 3 0 1
         (snd (Node_setattr pipeline 3 1 ''gain'' (PyInt 5) chain_at_rest))) 1
       ''_should_reset'' = Some (PyBool False)"
  by (simp add: step_defs class_defs heap_defs numeral_3_eq_3)

section \<open>Ancestor traversal\<close>



subsection \<open>What the steps of a pull leave alone\<close>

lemma then_do_Inr:
  "then_do r f = (Inr y, h') \<longleftrightarrow> (\<exists>x h1. r = (Inr x, h1) \<and> f x h1 = (Inr y, h'))"
  by (cases r) (auto simp: then_do_def split: sum.splits)

lemma then_do_frame:
  assumes "P (snd r)" "\<And>x h1. r = (Inr x, h1) \<Longrightarrow> P (snd (f x h1))"
  shows "P (snd (then_do r f))"
  using assms by (cases r) (auto simp: then_do_def split: sum.splits)

lemma setattr_protocol_frame:
  assumes "cooperative K a" "k \<in> protocol_attrs" "k' \<noteq> k"
  shows "snd (Node_setattr K d a k v h) x k' = h x k'"
  using assms by (simp add: setattr_protocol_any_depth)

lemma initialize_frame:
  assumes "cooperative K b" "leaves (Node_initialize_impl K d) b x key"
    "key \<noteq> ''_saved_from_upstream''"
  shows "snd (initialize K d now b h) x key = h x key"
proof -
  have w: "snd (Node_setattr K d b ''_saved_from_upstream'' v h) x key = h x key" for v
    using assms by (simp add: setattr_protocol_frame)
  have i: "snd (Node_initialize_impl K d now b h1) x key = h1 x key" for h1
    using assms(2) by (simp add: leaves_def)
  have "snd (then_do (Node_setattr K d b ''_saved_from_upstream'' v h)
               (\<lambda>_ h1. Node_initialize_impl K d now b h1)) x key = h x key" for v
  proof (rule then_do_frame [where P = "\<lambda>h'. h' x key = h x key"])
    show "snd (Node_setattr K d b ''_saved_from_upstream'' v h) x key = h x key" by (rule w)
  next
    fix u h1
    assume "Node_setattr K d b ''_saved_from_upstream'' v h = (Inr u, h1)"
    then have "h1 x key = h x key" using w [of v] by simp
    then show "snd (Node_initialize_impl K d now b h1) x key = h x key" by (simp add: i)
  qed
  then show ?thesis
    by (simp add: initialize_def split: sum.splits)
qed

lemma reset_or_reinitialize_frame:
  assumes "cooperative K b" "leaves (Node_initialize_impl K d) b x key" "leaves (reset K) b x key"
    "key \<noteq> ''_saved_from_upstream''" "key \<noteq> ''_should_initialize''" "key \<noteq> ''_should_reset''"
  shows "snd (reset_or_reinitialize_if_needed K d now b h) x key = h x key"
proof -
  let ?first = "\<lambda>si. if si = PyBool True then initialize K d now b h
             else (case getattr_node K h b ''_should_reset'' of
                  Inl e \<Rightarrow> (Inl e, h)
                | Inr sr \<Rightarrow> if sr = PyBool True then reset K now b h else (Inr (), h))"
  have f: "snd (?first si) x key = h x key" for si
    using assms initialize_frame [OF assms(1,2,4)]
    by (simp add: leaves_def split: sum.splits)
  have c: "snd (then_do (Node_setattr K d b ''_should_initialize'' (PyBool False) h1)
               (\<lambda>_ h2. Node_setattr K d b ''_should_reset'' (PyBool False) h2)) x key = h1 x key" for h1
    using assms(1,5,6)
    by (simp add: setattr_protocol_any_depth)
  have "snd (then_do (?first si)
            (\<lambda>_ h1. then_do (Node_setattr K d b ''_should_initialize'' (PyBool False) h1)
               (\<lambda>_ h2. Node_setattr K d b ''_should_reset'' (PyBool False) h2))) x key = h x key" for si
  proof (rule then_do_frame [where P = "\<lambda>h'. h' x key = h x key"])
    show "snd (?first si) x key = h x key" by (rule f)
  next
    fix u h1
    assume "?first si = (Inr u, h1)"
    then have "h1 x key = h x key" using f [of si] by simp
    then show "snd (then_do (Node_setattr K d b ''_should_initialize'' (PyBool False) h1)
               (\<lambda>_ h2. Node_setattr K d b ''_should_reset'' (PyBool False) h2)) x key = h x key"
      by (simp add: c)
  qed
  then show ?thesis
    by (simp add: reset_or_reinitialize_if_needed_def split: sum.splits)
qed

section \<open>Propagation of the change\<close>

text \<open>
  C4. Let the node \<open>b\<close> have the node \<open>a\<close>, another object, as its predecessor, let
  \<^verbatim>\<open>there_has_been_a_change\<close> be true on \<open>a\<close>, and let the routines of \<open>b\<close>
  (\<^verbatim>\<open>_initialize\<close>, \<^verbatim>\<open>reset\<close>, \<^verbatim>\<open>_update\<close>) leave that attribute of both
  nodes alone. When the pull of \<open>b\<close> completes, the attribute is false on \<open>a\<close> and
  true on \<open>b\<close>.
\<close>

theorem change_moves_one_hop:
  assumes distinct: "a \<noteq> b"
      and link: "h b ''input_node'' = Some (PyRef a)"
      and flag: "h a ''there_has_been_a_change'' = Some (PyBool True)"
      and coop: "cooperative K a" "cooperative K b"
      and quiet:
        "\<forall>x \<in> {a, b}. leaves (Node_initialize_impl K (Suc d)) b x ''there_has_been_a_change'' \<and>
                       leaves (reset K) b x ''there_has_been_a_change'' \<and>
                       leaves (Node_update_impl K) b x ''there_has_been_a_change''"
      and pulled: "update K (Suc d) now b h = (Inr (), h')"
  shows "h' a ''there_has_been_a_change'' = Some (PyBool False) \<and>
         h' b ''there_has_been_a_change'' = Some (PyBool True)"
proof -
  let ?F = "''there_has_been_a_change''"
  let ?h1 = "store_attr b ''output'' PyNone h"
  have w1: "Node_setattr K (Suc d) b ''output'' PyNone h = (Inr (), ?h1)"
    using coop by (simp add: setattr_protocol)
  have ch: "there_was_a_change_upstream K ?h1 b = Inr True"
    using distinct link flag
    by (simp add: there_was_a_change_upstream_def getattr_val_def)
  from pulled obtain h2 h3 where
    react: "react_to_the_change_upstream K (Suc d) b ?h1 = (Inr (), h2)" and
    resolve: "reset_or_reinitialize_if_needed K (Suc d) now b h2 = (Inr (), h3)" and
    compute: "Node_update_impl K now b h3 = (Inr (), h')"
    by (auto simp: update_def w1 ch then_do_Inr)
  let ?after = "\<lambda>key. store_attr b ?F (PyBool True) (store_attr a ?F (PyBool False)
            (store_attr b key (PyBool True) ?h1))"
  from react have h2: "h2 = ?after ''_should_initialize'' \<or> h2 = ?after ''_should_reset''"
    using coop link distinct
    by (auto simp: react_to_the_change_upstream_def setattr_protocol setattr_val_def
             split: sum.splits if_splits)
  have a2: "h2 a ?F = Some (PyBool False)" and b2: "h2 b ?F = Some (PyBool True)"
    using distinct h2 by auto
  have q: "leaves (Node_initialize_impl K (Suc d)) b x ?F" "leaves (reset K) b x ?F"
    "leaves (Node_update_impl K) b x ?F" if "x \<in> {a, b}" for x
    using quiet that by blast+
  have fr3: "h3 x ?F = h2 x ?F" if "x \<in> {a, b}" for x
    using reset_or_reinitialize_frame [OF coop(2) q(1) [OF that] q(2) [OF that], of now h2]
      resolve by simp
  have fr4: "h' x ?F = h3 x ?F" if "x \<in> {a, b}" for x
  proof -
    from q(3) [OF that] have "snd (Node_update_impl K now b h3) x ?F = h3 x ?F"
      unfolding leaves_def by blast
    with compute show ?thesis by simp
  qed
  show ?thesis using a2 b2 fr3 fr4 by simp
qed


lemma source_changed_is_the_mutation:
  "Node_setattr pipeline 3 0 ''frequency'' (PyInt 512) chain_at_rest = (Inr (), chain_source_changed)"
  by (simp add: step_defs class_defs heap_defs numeral_3_eq_3 fun_eq_iff)

theorem change_moves_one_hop_witness:
  "(0::addr) \<noteq> 1 \<and>
   chain_source_changed 1 ''input_node'' = Some (PyRef 0) \<and>
   chain_source_changed 0 ''there_has_been_a_change'' = Some (PyBool True) \<and>
   fst (update pipeline 3 0 1 chain_source_changed) = Inr () \<and>
   snd (update pipeline 3 0 1 chain_source_changed) 0 ''there_has_been_a_change''
     = Some (PyBool False) \<and>
   snd (update pipeline 3 0 1 chain_source_changed) 1 ''there_has_been_a_change''
     = Some (PyBool True)"
proof -
  have d: "(0::addr) \<noteq> 1" by simp
  have l: "chain_source_changed 1 ''input_node'' = Some (PyRef 0)" by (simp add: heap_defs)
  have f: "chain_source_changed 0 ''there_has_been_a_change'' = Some (PyBool True)"
    by (simp add: heap_defs)
  have q: "\<forall>x \<in> {0, 1}. leaves (Node_initialize_impl pipeline (Suc 2)) 1 x ''there_has_been_a_change'' \<and>
                       leaves (reset pipeline) 1 x ''there_has_been_a_change'' \<and>
                       leaves (Node_update_impl pipeline) 1 x ''there_has_been_a_change''"
    by (simp add: leaves_def Node_initialize_impl_def Node_update_impl_def reset_def class_defs
          store_attr_def)
  have r: "fst (update pipeline (Suc 2) 0 1 chain_source_changed) = Inr ()"
    by (simp add: step_defs class_defs heap_defs numeral_2_eq_2)
  then have p: "update pipeline (Suc 2) 0 1 chain_source_changed =
      (Inr (), snd (update pipeline (Suc 2) 0 1 chain_source_changed))"
    by (metis prod.collapse)
  from change_moves_one_hop [OF d l f pipeline_cooperative q p] d l f r
  show ?thesis by (simp add: numeral_3_eq_3 numeral_2_eq_2)
qed


section \<open>Reinitialization or reset\<close>

lemma dict_set_keys:
  "map fst (dict_set kvs k v) =
     (if k \<in> set (map fst kvs) then map fst kvs else map fst kvs @ [k])"
  by (induction kvs) (fastforce+)

lemma collect_upstream_keys:
  "collect_upstream K d h a ts acc = Inr kvs \<Longrightarrow> distinct (map fst acc) \<Longrightarrow>
   distinct (map fst kvs) \<and> set (map fst kvs) = set (map fst acc) \<union> set ts"
proof (induction ts arbitrary: acc)
  case Nil
  then show ?case by simp
next
  case (Cons item ts)
  from Cons.prems(1) obtain v where
    rest: "collect_upstream K d h a ts (dict_set acc item v) = Inr kvs"
    by (auto split: sum.splits)
  have "distinct (map fst (dict_set acc item v))"
    using Cons.prems(2) by (simp add: dict_set_keys)
  from Cons.IH [OF rest this] show ?case
    by (auto simp: dict_set_keys split: if_splits)
qed


lemma items_differ_all:
  assumes "\<forall>item \<in> fst ` set kvs. \<exists>t. traverse_back_and_find K d h b item = Inr t"
  shows "items_differ K d h b kvs =
           Inr (\<exists>(item, v) \<in> set kvs. \<exists>t. traverse_back_and_find K d h b item = Inr t \<and> \<not> py_eq v t)"
  using assms
proof (induction kvs)
  case Nil
  then show ?case by simp
next
  case (Cons p kvs)
  obtain item v where p: "p = (item, v)" by (cases p)
  from Cons.prems obtain t where t: "traverse_back_and_find K d h b item = Inr t"
    by (auto simp: p)
  from Cons.prems have "\<forall>item \<in> fst ` set kvs. \<exists>t. traverse_back_and_find K d h b item = Inr t"
    by simp
  note IH = Cons.IH [OF this]
  show ?case by (simp add: p t IH)
qed

lemma snapshot_by_name:
  assumes "distinct (map fst kvs)" "set (map fst kvs) = set ts"
  shows "(\<exists>(item, v) \<in> set kvs. Q item v) \<longleftrightarrow> (\<exists>item \<in> set ts. \<exists>v. map_of kvs item = Some v \<and> Q item v)"
proof
  assume "\<exists>(item, v) \<in> set kvs. Q item v"
  then obtain item v where m: "(item, v) \<in> set kvs" and q: "Q item v" by auto
  from m assms(1) have "map_of kvs item = Some v" by simp
  moreover from m assms(2) have "item \<in> set ts" by force
  ultimately show "\<exists>item \<in> set ts. \<exists>v. map_of kvs item = Some v \<and> Q item v" using q by blast
next
  assume "\<exists>item \<in> set ts. \<exists>v. map_of kvs item = Some v \<and> Q item v"
  then obtain item v where "map_of kvs item = Some v" and q: "Q item v" by blast
  then have "(item, v) \<in> set kvs" by (simp add: map_of_SomeD)
  with q show "\<exists>(item, v) \<in> set kvs. Q item v" by blast
qed

text \<open>
  C2. The pull of a node \<open>b\<close> runs \<^verbatim>\<open>_react_to_the_change_upstream\<close> exactly when
  the flag of its predecessor is true. Let the snapshot of \<open>b\<close> be a dictionary whose
  keys are the reinitialization triggers \<open>ts\<close> of its class, as \<^verbatim>\<open>initialize()\<close>
  leaves it, and let the traversal succeed for each of them. Then the step stores true
  in \<^verbatim>\<open>_should_initialize\<close> if for some name in \<open>ts\<close> the value found upstream
  differs from the value the snapshot has for it, and stores true in
  \<^verbatim>\<open>_should_reset\<close> otherwise; in both cases it then clears the flag of the
  predecessor and raises the flag of \<open>b\<close>.
\<close>

theorem reaction_decides_by_snapshot:
  assumes coop: "cooperative K a" "cooperative K b"
      and link: "h b ''input_node'' = Some (PyRef a)"
      and snapshot: "h b ''_saved_from_upstream'' = Some (PyDict kvs)"
      and keys: "distinct (map fst kvs)" "set (map fst kvs) = set ts"
      and triggers: "UPSTREAM_CHANGES_IN_THESE_REQUIRE_REINITIALIZATION K b = Inr ts"
      and found: "\<forall>item \<in> set ts. \<exists>t. traverse_back_and_find K (Suc d) h b item = Inr t"
  shows "react_to_the_change_upstream K (Suc d) b h =
           (Inr (),
            store_attr b ''there_has_been_a_change'' (PyBool True)
              (store_attr a ''there_has_been_a_change'' (PyBool False)
                 (store_attr b
                    (if \<exists>item \<in> set ts. \<exists>v t. map_of kvs item = Some v \<and>
                          traverse_back_and_find K (Suc d) h b item = Inr t \<and> \<not> py_eq v t
                     then ''_should_initialize'' else ''_should_reset'')
                    (PyBool True) h)))"
proof -
  let ?differs = "\<exists>item \<in> set ts. \<exists>v t. map_of kvs item = Some v \<and>
        traverse_back_and_find K (Suc d) h b item = Inr t \<and> \<not> py_eq v t"
  from found keys(2)
  have "\<forall>item \<in> fst ` set kvs. \<exists>t. traverse_back_and_find K (Suc d) h b item = Inr t"
    by simp
  then have "items_differ K (Suc d) h b kvs =
      Inr (\<exists>(item, v) \<in> set kvs. \<exists>t. traverse_back_and_find K (Suc d) h b item = Inr t \<and> \<not> py_eq v t)"
    by (rule items_differ_all)
  also have "(\<exists>(item, v) \<in> set kvs. \<exists>t. traverse_back_and_find K (Suc d) h b item = Inr t \<and> \<not> py_eq v t)
      \<longleftrightarrow> ?differs"
    using snapshot_by_name [OF keys, of "\<lambda>item v. \<exists>t. traverse_back_and_find K (Suc d) h b item = Inr t \<and> \<not> py_eq v t"]
    by (simp del: traverse_back_and_find.simps)
  finally have "the_change_requires_reinitialization K (Suc d) h b = Inr ?differs"
    using snapshot by (simp add: the_change_requires_reinitialization_def del: traverse_back_and_find.simps)
  moreover define D where "D \<longleftrightarrow> ?differs"
  ultimately have decision: "the_change_requires_reinitialization K (Suc d) h b = Inr D"
    by simp
  have "react_to_the_change_upstream K (Suc d) b h =
           (Inr (),
            store_attr b ''there_has_been_a_change'' (PyBool True)
              (store_attr a ''there_has_been_a_change'' (PyBool False)
                 (store_attr b (if D then ''_should_initialize'' else ''_should_reset'')
                    (PyBool True) h)))"
    using coop link
    by (cases D)
       (simp_all add: react_to_the_change_upstream_def decision setattr_protocol setattr_val_def)
  then show ?thesis unfolding D_def .
qed


theorem reaction_decides_by_snapshot_witness:
  "chain_source_changed 1 ''input_node'' = Some (PyRef 0) \<and>
   chain_source_changed 1 ''_saved_from_upstream'' = Some (PyDict [(''frequency'', PyInt 256)]) \<and>
   UPSTREAM_CHANGES_IN_THESE_REQUIRE_REINITIALIZATION pipeline 1 = Inr [''frequency''] \<and>
   traverse_back_and_find pipeline 3 chain_source_changed 1 ''frequency'' = Inr (PyInt 512) \<and>
   react_to_the_change_upstream pipeline 3 1 chain_source_changed =
     (Inr (),
      store_attr 1 ''there_has_been_a_change'' (PyBool True)
        (store_attr 0 ''there_has_been_a_change'' (PyBool False)
           (store_attr 1 ''_should_initialize'' (PyBool True) chain_source_changed)))"
proof -
  have l: "chain_source_changed 1 ''input_node'' = Some (PyRef 0)" by (simp add: heap_defs)
  have s: "chain_source_changed 1 ''_saved_from_upstream'' = Some (PyDict [(''frequency'', PyInt 256)])"
    by (simp add: heap_defs)
  have k: "distinct (map fst [(''frequency'', PyInt 256)])"
    "set (map fst [(''frequency'', PyInt 256)]) = set [''frequency'']"
    by simp_all
  have u: "UPSTREAM_CHANGES_IN_THESE_REQUIRE_REINITIALIZATION pipeline 1 = Inr [''frequency'']"
    by (simp add: UPSTREAM_CHANGES_IN_THESE_REQUIRE_REINITIALIZATION_def class_defs)
  have t: "traverse_back_and_find pipeline (Suc 2) chain_source_changed 1 ''frequency'' = Inr (PyInt 512)"
    by (simp add: getattr_val_def heap_defs numeral_3_eq_3)
  have f: "\<forall>item \<in> set [''frequency''].
      \<exists>t. traverse_back_and_find pipeline (Suc 2) chain_source_changed 1 item = Inr t"
    using t by (simp del: traverse_back_and_find.simps)
  have e: "(3::nat) = Suc 2" by simp
  from reaction_decides_by_snapshot [OF pipeline_cooperative l s k u f] l s u t
  show ?thesis
    unfolding e by (simp del: traverse_back_and_find.simps)
qed


section \<open>The output of a pull\<close>










section \<open>The lifetime of a source\<close>

lemmas source_defs = SourceNode_init_def Node_init_def is_alive_def new_object_def
  py_add_def float_gt_def

lemma timed_source_built:
  "SourceNode_init pipeline 3 (PyInt 2) 0 (new_object 0 no_objects) = (Inr (), timed_source_built)"
  "timed_source_built = no_objects(0 := map_of
       [(''input_node'', PyNone), (''output'', PyNone),
        (''there_has_been_a_change'', PyBool True),
        (''_should_initialize'', PyBool True), (''_should_reset'', PyInt 1),
        (''_saved_from_upstream'', PyNone), (''frequency'', PyNone),
        (''dtype'', PyNone), (''channel_count'', PyNone), (''channel_labels'', PyNone),
        (''source_name'', PyNone),
        (''_should_self_destruct'', PyBool True), (''_birthtime'', PyNone),
        (''_seconds_to_live'', PyInt 2), (''_is_alive'', PyBool True)])"
  by (simp_all add: timed_source_built_def source_defs step_defs class_defs heap_defs
        numeral_3_eq_3 fun_eq_iff)

lemma timed_source_pulled:
  "update pipeline 3 0 0 timed_source_built = (Inr (), timed_source_pulled)"
  "timed_source_pulled = no_objects(0 := map_of
       [(''input_node'', PyNone), (''output'', PyFloat 0),
        (''there_has_been_a_change'', PyBool True),
        (''_should_initialize'', PyBool False), (''_should_reset'', PyBool False),
        (''_saved_from_upstream'', PyDict []), (''frequency'', PyNone),
        (''dtype'', PyNone), (''channel_count'', PyNone), (''channel_labels'', PyNone),
        (''source_name'', PyNone),
        (''_should_self_destruct'', PyBool True), (''_birthtime'', PyFloat 0),
        (''_seconds_to_live'', PyInt 2), (''_is_alive'', PyBool True)])"
  by (simp_all add: timed_source_pulled_def timed_source_built(2) source_defs step_defs
        class_defs heap_defs numeral_3_eq_3 fun_eq_iff)

lemma timed_source_expired:
  "is_alive pipeline 3 5 0 timed_source_pulled = (Inr (PyBool False), timed_source_expired)"
  "timed_source_expired = no_objects(0 := map_of
       [(''input_node'', PyNone), (''output'', PyFloat 0),
        (''there_has_been_a_change'', PyBool True),
        (''_should_initialize'', PyBool False), (''_should_reset'', PyBool False),
        (''_saved_from_upstream'', PyDict []), (''frequency'', PyNone),
        (''dtype'', PyNone), (''channel_count'', PyNone), (''channel_labels'', PyNone),
        (''source_name'', PyNone),
        (''_should_self_destruct'', PyBool True), (''_birthtime'', PyFloat 0),
        (''_seconds_to_live'', PyInt 2), (''_is_alive'', PyBool False)])"
  by (simp_all add: timed_source_expired_def timed_source_pulled(2) source_defs step_defs
        class_defs heap_defs numeral_3_eq_3 fun_eq_iff)

text \<open>
  C8, as stated, fails. The source below was given two seconds to live and pulled when
  the clock showed 0; when the clock shows 5, \<^verbatim>\<open>is_alive\<close> is false. The next pull,
  when the clock shows 6, completes and leaves the data of its compute step in
  \<^verbatim>\<open>output\<close>: nothing in the pull reads \<^verbatim>\<open>is_alive\<close>.
\<close>

theorem expired_source_still_produces:
  "SourceNode_init pipeline 3 (PyInt 2) 0 (new_object 0 no_objects) = (Inr (), timed_source_built) \<and>
   update pipeline 3 0 0 timed_source_built = (Inr (), timed_source_pulled) \<and>
   is_alive pipeline 3 5 0 timed_source_pulled = (Inr (PyBool False), timed_source_expired) \<and>
   fst (update pipeline 3 6 0 timed_source_expired) = Inr () \<and>
   snd (update pipeline 3 6 0 timed_source_expired) 0 ''output'' = Some (PyFloat 6) \<and>
   fst (is_alive pipeline 3 7 0 (snd (update pipeline 3 6 0 timed_source_expired)))
     = Inr (PyBool False)"
proof -
  have "fst (update pipeline 3 6 0 timed_source_expired) = Inr ()"
    by (simp add: timed_source_expired(2) source_defs step_defs class_defs heap_defs
          numeral_3_eq_3)
  moreover have "snd (update pipeline 3 6 0 timed_source_expired) 0 ''output'' = Some (PyFloat 6)"
    by (simp add: timed_source_expired(2) source_defs step_defs class_defs heap_defs
          numeral_3_eq_3)
  moreover have "fst (is_alive pipeline 3 7 0 (snd (update pipeline 3 6 0 timed_source_expired)))
     = Inr (PyBool False)"
    by (simp add: timed_source_expired(2) source_defs step_defs class_defs heap_defs
          numeral_3_eq_3)
  ultimately show ?thesis
    using timed_source_built(1) timed_source_pulled(1) timed_source_expired(1) by simp
qed


end
